theory Spec2Isabelle
  imports Main "HOL-Library.AList"
begin

section \<open>Data model\<close>

text \<open>
  The program is a pandas script.  A table cell is a missing value, a number or a text;
  the numeric dtypes of pandas are not told apart and numbers are integers here.
\<close>

datatype cell = NaN | Num int | Str string

datatype error = IndexError | KeyError | ValueError | AttributeError | ReadError

type_synonym label = string

text \<open>
  A DataFrame is stored by column, as pandas stores it: the list of (label, values) pairs
  in column order, and the length of its index.  Every table of the program carries the
  default index 0, 1, ..., so the index is its length.
\<close>

record frame =
  index_len :: nat
  cols :: "(label \<times> cell list) list"

definition labels :: "frame \<Rightarrow> label list" where
  "labels f = map fst (cols f)"


text \<open>
  DataFrame objects are mutable and shared by reference: a sheet list holds references,
  and the store maps a reference to the object's present content.
\<close>

type_synonym ref = nat
type_synonym store = "ref \<Rightarrow> frame"

text \<open>A Python dict is an association list in insertion order; its keys are distinct.\<close>

type_synonym ('k, 'v) dict = "('k \<times> 'v) list"

definition keys :: "('k, 'v) dict \<Rightarrow> 'k list" where
  "keys d = map fst d"

definition vals :: "('k, 'v) dict \<Rightarrow> 'v list" where
  "vals d = map snd d"


text \<open>
  \<open>s[i]\<close> for a non-negative index: IndexError past the end.  A file name is the list
  of its characters (ASCII names).
\<close>

definition str_index :: "string \<Rightarrow> nat \<Rightarrow> error + char" where
  "str_index s i = (if i < length s then Inr (s ! i) else Inl IndexError)"

definition endswith :: "string \<Rightarrow> string \<Rightarrow> bool" where
  "endswith s suf \<longleftrightarrow> length suf \<le> length s \<and> drop (length s - length suf) s = suf"

section \<open>pandas operations used by the program\<close>

text \<open>\<open>df.columns[i]\<close>: the label at a position, IndexError past the end.\<close>

definition columns_at :: "frame \<Rightarrow> nat \<Rightarrow> error + label" where
  "columns_at f i = (if i < length (cols f) then Inr (labels f ! i) else Inl IndexError)"

text \<open>\<open>df.columns[a:b]\<close>: a slice never raises, it is cut at the end.\<close>

definition columns_slice :: "frame \<Rightarrow> nat \<Rightarrow> nat \<Rightarrow> label list" where
  "columns_slice f a b = take (b - a) (drop a (labels f))"

text \<open>
  \<open>df.drop(ls, axis=1)\<close>: removes every column whose label is among \<open>ls\<close> (drop goes
  by label, not by position); KeyError when a label is not in the table.
\<close>

definition drop_columns :: "label list \<Rightarrow> frame \<Rightarrow> error + frame" where
  "drop_columns ls f =
     (if set ls \<subseteq> set (labels f)
      then Inr (f\<lparr>cols := filter (\<lambda>c. fst c \<notin> set ls) (cols f)\<rparr>)
      else Inl KeyError)"

text \<open>
  \<open>pd.DataFrame(data, columns=cs)\<close> from a dict of arrays: the columns are looked up in
  the dict in the order of \<open>cs\<close>; arrays of different lengths are a ValueError.
  Every label of \<open>cs\<close> is a key of the dict wherever the program calls it.
\<close>

definition DataFrame :: "(label, cell list) dict \<Rightarrow> label list \<Rightarrow> error + frame" where
  "DataFrame data cs =
     (let arrays = map (\<lambda>c. (c, case map_of data c of Some a \<Rightarrow> a | None \<Rightarrow> [])) cs;
          n = (case arrays of [] \<Rightarrow> 0 | a # _ \<Rightarrow> length (snd a))
      in if list_all (\<lambda>a. length (snd a) = n) arrays
         then Inr \<lparr>index_len = n, cols = arrays\<rparr>
         else Inl ValueError)"

section \<open>IMD pipeline\<close>

subsection \<open>read_imd_data\<close>

text \<open>
  The input directory is the list \<open>os.listdir\<close> gives, each name with what
  \<open>pd.read_excel(..., sheet_name=None)\<close> returns for it: a dict from sheet name to
  table, or nothing when the file cannot be read as a workbook (read_excel raises; the
  exception is ReadError here, whatever its class).
  The loader returns the tables by value; \<open>as_objects\<close> below places them in a store.
\<close>

type_synonym workbook = "(string, frame) dict"

definition read_sheets :: "workbook \<Rightarrow> frame list" where
  "read_sheets df0 =
     (let df1 = (if ''Notes'' \<in> set (keys df0) then AList.delete ''Notes'' df0 else df0);
          df2 = (if ''Terms & Conditions'' \<in> set (keys df1)
                 then AList.delete ''Terms & Conditions'' df1 else df1)
      in vals df2)"

fun read_loop ::
  "(string \<times> workbook option) list \<Rightarrow> (string, frame list) dict
    \<Rightarrow> error + (string, frame list) dict" where
  "read_loop [] spreadsheet_dictionary = Inr spreadsheet_dictionary"
| "read_loop ((file, content) # rest) spreadsheet_dictionary =
     (if endswith file ''.xlsx''
      then (case content of
              None \<Rightarrow> Inl ReadError
            | Some df \<Rightarrow>
                read_loop rest (AList.update file (read_sheets df) spreadsheet_dictionary))
      else read_loop rest spreadsheet_dictionary)"

definition read_imd_data ::
  "(string \<times> workbook option) list \<Rightarrow> error + (string, frame list) dict" where
  "read_imd_data listing = read_loop listing []"

text \<open>
  Every table read is an object of its own: the tables of a collection are put at
  consecutive references from \<open>n\<close> on.
\<close>

fun alloc :: "frame list \<Rightarrow> store \<times> nat \<Rightarrow> (store \<times> nat) \<times> ref list" where
  "alloc [] (st, n) = ((st, n), [])"
| "alloc (f # fs) (st, n) =
     (case alloc fs (st(n := f), Suc n) of (sn, rs) \<Rightarrow> (sn, n # rs))"

fun as_objects ::
  "(string, frame list) dict \<Rightarrow> store \<times> nat \<Rightarrow> store \<times> (string, ref list) dict" where
  "as_objects [] (st, n) = (st, [])"
| "as_objects ((k, fs) # rest) (st, n) =
     (case alloc fs (st, n) of
        (sn, rs) \<Rightarrow> (case as_objects rest sn of (st', d) \<Rightarrow> (st', (k, rs) # d)))"

subsection \<open>remove_columns\<close>

text \<open>
  The two list comprehensions over the keys: \<open>filename[6]\<close> is read for every key, so a
  key shorter than seven characters raises IndexError before any sheet is touched.
\<close>

fun files_check :: "(char \<Rightarrow> bool) \<Rightarrow> string list \<Rightarrow> error + string list" where
  "files_check p [] = Inr []"
| "files_check p (filename # rest) =
     (case str_index filename 6 of
        Inl e \<Rightarrow> Inl e
      | Inr c \<Rightarrow>
          (case files_check p rest of
             Inl e \<Rightarrow> Inl e
           | Inr r \<Rightarrow> Inr (if p c then filename # r else r)))"

text \<open>\<open>df.drop(df.columns[1], inplace=True, axis=1)\<close>\<close>

definition drop_summary :: "frame \<Rightarrow> error + frame" where
  "drop_summary df =
     (case columns_at df 1 of Inl e \<Rightarrow> Inl e | Inr l \<Rightarrow> drop_columns [l] df)"

text \<open>\<open>df.drop(df.columns[1:4], inplace=True, axis=1)\<close>\<close>

definition drop_lsoa :: "frame \<Rightarrow> error + frame" where
  "drop_lsoa df = drop_columns (columns_slice df 1 4) df"

text \<open>
  The inner loop: each sheet object is changed in place (the store is updated at its
  reference) and the same reference is appended to the updated sheet list.
\<close>

fun drop_loop ::
  "(frame \<Rightarrow> error + frame) \<Rightarrow> ref list \<Rightarrow> store \<times> ref list \<Rightarrow> error + store \<times> ref list" where
  "drop_loop g [] (st, updated_sheet_list) = Inr (st, updated_sheet_list)"
| "drop_loop g (df # rest) (st, updated_sheet_list) =
     (case g (st df) of
        Inl e \<Rightarrow> Inl e
      | Inr f' \<Rightarrow> drop_loop g rest (st(df := f'), updated_sheet_list @ [df]))"

fun remove_loop ::
  "string list \<Rightarrow> string list \<Rightarrow> (string, ref list) dict \<Rightarrow> store \<times> (string, ref list) dict
    \<Rightarrow> error + store \<times> (string, ref list) dict" where
  "remove_loop summary_files_check lsoa_files_check [] (st, updated) = Inr (st, updated)"
| "remove_loop summary_files_check lsoa_files_check ((filename, sheet_list) # rest) (st, updated) =
     (case (if filename \<in> set summary_files_check
            then drop_loop drop_summary sheet_list (st, [])
            else Inr (st, [])) of
        Inl e \<Rightarrow> Inl e
      | Inr (st1, l1) \<Rightarrow>
          (case (if filename \<in> set lsoa_files_check
                 then drop_loop drop_lsoa sheet_list (st1, l1)
                 else Inr (st1, l1)) of
             Inl e \<Rightarrow> Inl e
           | Inr (st2, l2) \<Rightarrow>
               remove_loop summary_files_check lsoa_files_check rest
                 (st2, AList.update filename l2 updated)))"

definition remove_columns ::
  "store \<Rightarrow> (string, ref list) dict \<Rightarrow> error + store \<times> (string, ref list) dict" where
  "remove_columns st spreadsheet_dictionary =
     (case files_check (\<lambda>c. c \<noteq> CHR ''_'') (keys spreadsheet_dictionary) of
        Inl e \<Rightarrow> Inl e
      | Inr summary_files_check \<Rightarrow>
          (case files_check (\<lambda>c. c = CHR ''_'') (keys spreadsheet_dictionary) of
             Inl e \<Rightarrow> Inl e
           | Inr lsoa_files_check \<Rightarrow>
               remove_loop summary_files_check lsoa_files_check spreadsheet_dictionary (st, [])))"

subsection \<open>convert_to_eav_format\<close>

text \<open>
  \<open>pd.melt\<close>, as pandas 1.5 (current when the program was written) computes it.
  The columns named by \<open>id_vars + value_vars\<close> are selected by position, every position
  once; each identity column is then popped from the selected table and repeated once per
  remaining column; what remains is unpivoted column by column.
\<close>

text \<open>\<open>Index.get_indexer_for\<close>: for each target label, the positions that carry it.\<close>

definition get_indexer_for :: "label list \<Rightarrow> label list \<Rightarrow> nat list" where
  "get_indexer_for columns target =
     concat (map (\<lambda>t. filter (\<lambda>i. columns ! i = t) [0..<length columns]) target)"

text \<open>\<open>unique\<close>: the values in order of first appearance.\<close>

fun unique_from :: "'a list \<Rightarrow> 'a list \<Rightarrow> 'a list" where
  "unique_from seen [] = []"
| "unique_from seen (x # xs) =
     (if x \<in> set seen then unique_from seen xs else x # unique_from (x # seen) xs)"

definition unique :: "'a list \<Rightarrow> 'a list" where
  "unique xs = unique_from [] xs"

text \<open>\<open>frame.iloc[:, idx]\<close>, for positions within the table.\<close>

definition iloc_columns :: "frame \<Rightarrow> nat list \<Rightarrow> frame" where
  "iloc_columns f idx = f\<lparr>cols := map (\<lambda>i. cols f ! i) idx\<rparr>"

text \<open>
  \<open>frame.pop(col)\<close> returns the column and deletes it.  A label carried by several
  columns pops a table instead of a column, which the table construction at the end of
  melt refuses (ValueError); nothing observable happens in between.
\<close>

definition pop :: "label \<Rightarrow> frame \<Rightarrow> error + cell list \<times> frame" where
  "pop col f =
     (case filter (\<lambda>c. fst c = col) (cols f) of
        [] \<Rightarrow> Inl KeyError
      | [c] \<Rightarrow> Inr (snd c, f\<lparr>cols := filter (\<lambda>c. fst c \<noteq> col) (cols f)\<rparr>)
      | _ \<Rightarrow> Inl ValueError)"

text \<open>\<open>np.tile(a, K)\<close>: a negative repetition count is a ValueError.\<close>

definition tile :: "cell list \<Rightarrow> int \<Rightarrow> error + cell list" where
  "tile a K = (if K < 0 then Inl ValueError else Inr (concat (replicate (nat K) a)))"

fun pop_id_vars ::
  "label list \<Rightarrow> int \<Rightarrow> frame \<times> (label, cell list) dict
    \<Rightarrow> error + frame \<times> (label, cell list) dict" where
  "pop_id_vars [] K (frame, mdata) = Inr (frame, mdata)"
| "pop_id_vars (col # rest) K (frame, mdata) =
     (case pop col frame of
        Inl e \<Rightarrow> Inl e
      | Inr (id_data, frame') \<Rightarrow>
          (case tile id_data K of
             Inl e \<Rightarrow> Inl e
           | Inr a \<Rightarrow> pop_id_vars rest K (frame', AList.update col a mdata)))"

definition melt :: "frame \<Rightarrow> label list \<Rightarrow> label list \<Rightarrow> label \<Rightarrow> label \<Rightarrow> error + frame" where
  "melt frame0 id_vars value_vars var_name value_name =
     (if \<not> set id_vars \<subseteq> set (labels frame0) \<or> \<not> set value_vars \<subseteq> set (labels frame0)
      then Inl KeyError
      else
        let idx = unique (get_indexer_for (labels frame0) (id_vars @ value_vars));
            frame = iloc_columns frame0 idx;
            N = index_len frame;
            K = int (length (cols frame)) - int (length id_vars)
        in case pop_id_vars id_vars K (frame, []) of
             Inl e \<Rightarrow> Inl e
           | Inr (frame', mdata) \<Rightarrow>
               let mcolumns = id_vars @ [var_name] @ [value_name];
                   mdata1 = AList.update value_name (concat (map snd (cols frame'))) mdata;
                   mdata2 = AList.update var_name
                              (concat (map (\<lambda>l. replicate N (Str l)) (labels frame'))) mdata1
               in DataFrame mdata2 mcolumns)"

fun eav_loop :: "store \<Rightarrow> ref list \<Rightarrow> frame list \<Rightarrow> error + frame list" where
  "eav_loop st [] eav_sheets = Inr eav_sheets"
| "eav_loop st (sheet # rest) eav_sheets =
     (case melt (st sheet) (columns_slice (st sheet) 0 2) (drop 1 (labels (st sheet)))
             ''attribute'' ''value'' of
        Inl e \<Rightarrow> Inl e
      | Inr updated_sheet \<Rightarrow> eav_loop st rest (eav_sheets @ [updated_sheet]))"

fun convert_loop ::
  "store \<Rightarrow> (string, ref list) dict \<Rightarrow> (string, frame list) dict
    \<Rightarrow> error + (string, frame list) dict" where
  "convert_loop st [] eav_spreadsheet_dictionary = Inr eav_spreadsheet_dictionary"
| "convert_loop st ((file_name, sheet_list) # rest) eav_spreadsheet_dictionary =
     (case eav_loop st sheet_list [] of
        Inl e \<Rightarrow> Inl e
      | Inr eav_sheets \<Rightarrow>
          convert_loop st rest (AList.update file_name eav_sheets eav_spreadsheet_dictionary))"

text \<open>The melted tables are new objects; they are returned by value.\<close>

definition convert_to_eav_format ::
  "store \<Rightarrow> (string, ref list) dict \<Rightarrow> error + (string, frame list) dict" where
  "convert_to_eav_format st updated_spreadsheet_dictionary =
     convert_loop st updated_spreadsheet_dictionary []"

subsection \<open>The two stages in sequence\<close>

text \<open>
  The two middle calls of \<open>main\<close> in run.py: \<open>remove_columns\<close>, then
  \<open>convert_to_eav_format\<close> on the collection it returns.
\<close>

definition strip_then_reshape ::
  "store \<Rightarrow> (string, ref list) dict \<Rightarrow> error + (string, frame list) dict" where
  "strip_then_reshape st spreadsheet_dictionary =
     (case remove_columns st spreadsheet_dictionary of
        Inl e \<Rightarrow> Inl e
      | Inr (st', updated_spreadsheet_dictionary) \<Rightarrow>
          convert_to_eav_format st' updated_spreadsheet_dictionary)"

subsection \<open>write_data\<close>

text \<open>The output directory: file name to the rows written.\<close>

type_synonym files = "(string, cell list list) dict"

text \<open>\<open>name, sheet_list = v\<close>: ValueError unless \<open>v\<close> has exactly two elements.\<close>

definition unpack2 :: "'a list \<Rightarrow> error + 'a \<times> 'a" where
  "unpack2 v = (case v of [a, b] \<Rightarrow> Inr (a, b) | _ \<Rightarrow> Inl ValueError)"

text \<open>
  The loop runs over \<open>spreadsheet_dictionary.values()\<close>.  A value that unpacks binds
  \<open>name\<close> and \<open>sheet_list\<close> to its two tables; iterating a table yields its column
  labels, and the first label has no \<open>to_csv\<close> (AttributeError).  No branch writes.
\<close>

fun write_loop :: "frame list list \<Rightarrow> files \<Rightarrow> error + files" where
  "write_loop [] fs = Inr fs"
| "write_loop (v # rest) fs =
     (case unpack2 v of
        Inl e \<Rightarrow> Inl e
      | Inr (name, sheet_list) \<Rightarrow>
          (case labels sheet_list of
             [] \<Rightarrow> write_loop rest fs
           | sheet # _ \<Rightarrow> Inl AttributeError))"

definition write_data :: "(string, frame list) dict \<Rightarrow> files \<Rightarrow> error + files" where
  "write_data spreadsheet_dictionary fs = write_loop (vals spreadsheet_dictionary) fs"

section \<open>Lookup pipeline\<close>

subsection \<open>create_master\<close>







subsection \<open>create_bridge_tables\<close>

definition bridge_table_index_dictionary :: "(string, nat list) dict" where
  "bridge_table_index_dictionary =
     [(''lad_bridge'', [2, 3]), (''lad_ut_bridge'', [6, 7]),
      (''lep_bridge'', [10, 11]), (''ccg_bridge'', [14, 16])]"

text \<open>
  \<open>df.columns[positions]\<close> for a list of positions: the labels at the positions,
  IndexError past the end.
\<close>

fun columns_take :: "frame \<Rightarrow> nat list \<Rightarrow> error + label list" where
  "columns_take f [] = Inr []"
| "columns_take f (i # is) =
     (case columns_at f i of
        Inl e \<Rightarrow> Inl e
      | Inr l \<Rightarrow> (case columns_take f is of Inl e \<Rightarrow> Inl e | Inr ls \<Rightarrow> Inr (l # ls)))"

text \<open>\<open>df[ls]\<close> for a list of labels: for each label, every column that carries it.\<close>

definition getitem_columns :: "frame \<Rightarrow> label list \<Rightarrow> error + frame" where
  "getitem_columns f ls =
     (if set ls \<subseteq> set (labels f)
      then Inr (iloc_columns f (get_indexer_for (labels f) ls))
      else Inl KeyError)"

text \<open>
  \<open>df[l].unique()\<close>: \<open>df[l]\<close> is a column when one column carries the label; when
  several do it is a table, which has no \<open>unique\<close> (AttributeError).
\<close>

definition getitem_unique :: "frame \<Rightarrow> label \<Rightarrow> error + cell list" where
  "getitem_unique f l =
     (case filter (\<lambda>c. fst c = l) (cols f) of
        [] \<Rightarrow> Inl KeyError
      | [c] \<Rightarrow> Inr (unique (snd c))
      | _ \<Rightarrow> Inl AttributeError)"

fun split_loop :: "frame \<Rightarrow> nat list list \<Rightarrow> frame list \<Rightarrow> error + frame list" where
  "split_loop lookup_table [] bridge_table_list = Inr bridge_table_list"
| "split_loop lookup_table (lookup_name # rest) bridge_table_list =
     (case columns_take lookup_table lookup_name of
        Inl e \<Rightarrow> Inl e
      | Inr ls \<Rightarrow>
          (case getitem_columns lookup_table ls of
             Inl e \<Rightarrow> Inl e
           | Inr df \<Rightarrow> split_loop lookup_table rest (bridge_table_list @ [df])))"

definition bridge_of :: "frame \<Rightarrow> error + frame" where
  "bridge_of df =
     (case columns_at df 0 of
        Inl e \<Rightarrow> Inl e
      | Inr c0 \<Rightarrow>
     (case getitem_unique df c0 of
        Inl e \<Rightarrow> Inl e
      | Inr code \<Rightarrow>
     (case columns_at df 1 of
        Inl e \<Rightarrow> Inl e
      | Inr c1 \<Rightarrow>
     (case getitem_unique df c1 of
        Inl e \<Rightarrow> Inl e
      | Inr name \<Rightarrow>
          DataFrame [(''code'', code), (''name'', name)] [''code'', ''name'']))))"

fun dedup_loop :: "frame list \<Rightarrow> frame list \<Rightarrow> error + frame list" where
  "dedup_loop [] bridge_table_list_duplicates_removed = Inr bridge_table_list_duplicates_removed"
| "dedup_loop (df # rest) bridge_table_list_duplicates_removed =
     (case bridge_of df of
        Inl e \<Rightarrow> Inl e
      | Inr updated_df \<Rightarrow>
          dedup_loop rest (bridge_table_list_duplicates_removed @ [updated_df]))"

definition create_bridge_tables :: "frame \<Rightarrow> error + frame list" where
  "create_bridge_tables lookup_table =
     (case split_loop lookup_table (vals bridge_table_index_dictionary) [] of
        Inl e \<Rightarrow> Inl e
      | Inr bridge_table_list \<Rightarrow> dedup_loop bridge_table_list [])"

section \<open>Descriptions of the results\<close>

text \<open>The table without its columns at the positions \<open>a \<le> p < b\<close>.\<close>

definition drop_positions :: "nat \<Rightarrow> nat \<Rightarrow> frame \<Rightarrow> frame" where
  "drop_positions a b f = f\<lparr>cols := take a (cols f) @ drop b (cols f)\<rparr>"

text \<open>What the stripper does to a sheet of the file named \<open>k\<close>.\<close>

definition strip_of :: "string \<Rightarrow> frame \<Rightarrow> frame" where
  "strip_of k f = (if k ! 6 \<noteq> CHR ''_'' then drop_positions 1 2 f else drop_positions 1 4 f)"


text \<open>
  The values of a column at the positions where a value occurs for the first time, in
  the order of the positions.
\<close>

definition first_occurrences :: "'a list \<Rightarrow> 'a list" where
  "first_occurrences xs =
     map ((!) xs) (filter (\<lambda>i. xs ! i \<notin> set (take i xs)) [0..<length xs])"

section \<open>Example data\<close>

definition no_frame :: frame where
  "no_frame = \<lparr>index_len = 0, cols = []\<rparr>"

definition summary_sheet :: frame where
  "summary_sheet = \<lparr>index_len = 2, cols =
     [(''CCG code'', [Str ''E38000001'', Str ''E38000002'']),
      (''CCG name'', [Str ''Airedale'', Str ''Ashford'']),
      (''IMD score'', [Num 21, Num 17]),
      (''IMD rank'', [Num 70, Num 120])]\<rparr>"

definition summary_sheet_stripped :: frame where
  "summary_sheet_stripped = \<lparr>index_len = 2, cols =
     [(''CCG code'', [Str ''E38000001'', Str ''E38000002'']),
      (''IMD score'', [Num 21, Num 17]),
      (''IMD rank'', [Num 70, Num 120])]\<rparr>"

definition summary_sheet_eav :: frame where
  "summary_sheet_eav = \<lparr>index_len = 2, cols =
     [(''CCG code'', [Str ''E38000001'', Str ''E38000002'']),
      (''IMD score'', [Num 21, Num 17]),
      (''attribute'', [Str ''IMD rank'', Str ''IMD rank'']),
      (''value'', [Num 70, Num 120])]\<rparr>"

definition imd_listing :: "(string \<times> workbook option) list" where
  "imd_listing =
     [(''File_10_CCG.xlsx'', Some [(''IMD'', summary_sheet), (''Notes'', no_frame)]),
      (''readme.txt'', None)]"

definition one_column_sheet :: frame where
  "one_column_sheet = \<lparr>index_len = 2, cols = [(''CCG code'', [Str ''E38000001'', Str ''E38000002''])]\<rparr>"

definition lsoa_sheet :: frame where
  "lsoa_sheet = \<lparr>index_len = 2, cols =
     [(''LSOA code'', [Str ''E01000001'', Str ''E01000002'']),
      (''LSOA name'', [Str ''City of London 001A'', Str ''City of London 001B'']),
      (''LAD code'', [Str ''E09000001'', Str ''E09000001'']),
      (''LAD name'', [Str ''City of London'', Str ''City of London'']),
      (''IMD rank'', [Num 29199, Num 30379]),
      (''IMD decile'', [Num 9, Num 10])]\<rparr>"

definition lsoa_sheet_stripped :: frame where
  "lsoa_sheet_stripped = \<lparr>index_len = 2, cols =
     [(''LSOA code'', [Str ''E01000001'', Str ''E01000002'']),
      (''IMD rank'', [Num 29199, Num 30379]),
      (''IMD decile'', [Num 9, Num 10])]\<rparr>"

definition two_files :: "(string, ref list) dict" where
  "two_files = [(''File_10_CCG.xlsx'', [0]), (''File_1_IMD.xlsx'', [1])]"

definition two_files_store :: store where
  "two_files_store = (\<lambda>_. no_frame)(0 := summary_sheet, 1 := lsoa_sheet)"



text \<open>A sheet of the end-to-end scenario, with any rows, and what the two stages make of it.\<close>

definition scenario_sheet :: "nat \<Rightarrow> cell list \<Rightarrow> cell list \<Rightarrow> cell list \<Rightarrow> frame" where
  "scenario_sheet N codes names scores =
     \<lparr>index_len = N, cols = [(''LSOA code'', codes), (''LSOA name'', names), (''Score'', scores)]\<rparr>"

definition scenario_eav :: frame where
  "scenario_eav =
     \<lparr>index_len = 0,
      cols = [(''LSOA code'', []), (''Score'', []), (''attribute'', []), (''value'', [])]\<rparr>"

definition scenario_store :: store where
  "scenario_store =
     (\<lambda>_. no_frame)
       (0 := scenario_sheet 2 [Str ''E01000001'', Str ''E01000002'']
               [Str ''City of London 001A'', Str ''City of London 001B''] [Num 6, Num 5],
        1 := scenario_sheet 1 [Str ''E01000003''] [Str ''City of London 001C''] [Num 19])"






definition master_lookup :: frame where
  "master_lookup = \<lparr>index_len = 2, cols =
     [(''LSOA code (2011)'', [Str ''E01000001'', Str ''E01000002'']),
      (''LSOA name (2011)'', [Str ''City of London 001A'', Str ''City of London 001B'']),
      (''LAD code'', [Str ''E09000001'', Str ''E09000001'']),
      (''LAD name'', [Str ''City of London'', Str ''City of London'']),
      (''LSOA11CD_x'', [Str ''E01000001'', Str ''E01000002'']),
      (''LSOA11NM_x'', [Str ''City of London 001A'', Str ''City of London 001B'']),
      (''UTLA code'', [Str ''E09000001'', Str ''E09000001'']),
      (''UTLA name'', [Str ''City of London'', Str ''City of London'']),
      (''LSOA11CD_y'', [Str ''E01000001'', Str ''E01000002'']),
      (''LSOA11NM_y'', [Str ''City of London 001A'', Str ''City of London 001B'']),
      (''LEP code'', [Str ''E37000051'', Str ''E37000051'']),
      (''LEP name'', [Str ''London'', Str ''London'']),
      (''LSOA11CD'', [Str ''E01000001'', NaN]),
      (''LSOA11NM'', [Str ''City of London 001A'', NaN]),
      (''CCG code'', [Str ''E38000255'', NaN]),
      (''CCG codeH'', [Str ''93C'', NaN]),
      (''CCG name'', [Str ''NHS North East London CCG'', NaN])]\<rparr>"

definition bridge_tables :: "frame list" where
  "bridge_tables =
     [\<lparr>index_len = 1, cols = [(''code'', [Str ''E09000001'']), (''name'', [Str ''City of London''])]\<rparr>,
      \<lparr>index_len = 1, cols = [(''code'', [Str ''E09000001'']), (''name'', [Str ''City of London''])]\<rparr>,
      \<lparr>index_len = 1, cols = [(''code'', [Str ''E37000051'']), (''name'', [Str ''London''])]\<rparr>,
      \<lparr>index_len = 2, cols = [(''code'', [Str ''E38000255'', NaN]),
                               (''name'', [Str ''NHS North East London CCG'', NaN])]\<rparr>]"




section \<open>The column stripper: short file names, work in place\<close>

lemma files_check_error: "files_check p ks = Inl e \<Longrightarrow> e = IndexError"
  by (induction ks arbitrary: e) (auto simp: str_index_def split: sum.splits if_splits)

lemma files_check_short:
  "filename \<in> set ks \<Longrightarrow> length filename < 7 \<Longrightarrow> files_check p ks = Inl IndexError"
  by (induction ks) (auto simp: str_index_def split: sum.splits dest: files_check_error)

lemma files_check_set:
  "files_check p ks = Inr r \<Longrightarrow>
     set r = {k \<in> set ks. p (k ! 6)} \<and> (\<forall>k \<in> set ks. 7 \<le> length k)"
  by (induction ks arbitrary: r) (auto simp: str_index_def split: sum.splits if_splits)

lemma files_check_Inr:
  "\<forall>k \<in> set ks. 7 \<le> length k \<Longrightarrow> \<exists>r. files_check p ks = Inr r"
  by (induction ks) (auto simp: str_index_def split: sum.splits if_splits)

text \<open>
  C9.  When a key of the workbook collection has fewer than seven characters, the
  classification check of \<open>remove_columns\<close> raises IndexError; nothing handles it, so
  the call returns no collection.
\<close>

theorem remove_columns_short_filename:
  "filename \<in> set (keys d) \<Longrightarrow> length filename < 7 \<Longrightarrow> remove_columns st d = Inl IndexError"
  by (simp add: remove_columns_def files_check_short)

theorem remove_columns_short_filename_witness:
  "''a.xlsx'' \<in> set (keys [(''a.xlsx'', [0::nat])]) \<and> length ''a.xlsx'' < 7
   \<and> remove_columns (\<lambda>_. no_frame) [(''a.xlsx'', [0])] = Inl IndexError"
  using remove_columns_short_filename
          [of "''a.xlsx''" "[(''a.xlsx'', [0::nat])]" "\<lambda>_. no_frame"]
  by (simp add: keys_def)


lemma update_fresh: "k \<notin> set (keys d) \<Longrightarrow> AList.update k v d = d @ [(k, v)]"
  by (induction d) (auto simp: keys_def)




section \<open>Properties of the IMD writer\<close>

lemma unpack2_fails: "length v \<noteq> 2 \<Longrightarrow> unpack2 v = Inl ValueError"
  by (auto simp: unpack2_def split: list.splits)

lemma write_loop_error:
  "write_loop vs fs = Inl e \<Longrightarrow> e = ValueError \<or> e = AttributeError"
  by (induction vs) (auto simp: unpack2_def split: list.splits sum.splits)

lemma write_loop_fails:
  "v \<in> set vs \<Longrightarrow> length v \<noteq> 2 \<Longrightarrow>
     write_loop vs fs = Inl ValueError \<or> write_loop vs fs = Inl AttributeError"
proof (induction vs)
  case Nil
  then show ?case by simp
next
  case (Cons a vs)
  show ?case
  proof (cases "a = v")
    case True
    then show ?thesis using Cons.prems(2) by (simp add: unpack2_fails)
  next
    case False
    with Cons have "write_loop vs fs = Inl ValueError \<or> write_loop vs fs = Inl AttributeError"
      by simp
    then show ?thesis by (auto simp: unpack2_def split: list.splits sum.splits)
  qed
qed

text \<open>
  C7.  \<open>write_data\<close> iterates over the values of the collection and unpacks each
  value as a pair.  A value that is a sheet list of any length but two fails to unpack
  (ValueError), and a collection that holds such a value makes the writer fail: with that
  ValueError, or earlier with the AttributeError of a two-sheet value.
\<close>

theorem write_data_unpack_fails:
  "v \<in> set (vals d) \<Longrightarrow> length v \<noteq> 2 \<Longrightarrow>
     unpack2 v = Inl ValueError \<and>
     (write_data d fs = Inl ValueError \<or> write_data d fs = Inl AttributeError)"
  by (simp add: write_data_def unpack2_fails write_loop_fails)

theorem write_data_unpack_fails_witness:
  "[summary_sheet_eav] \<in> set (vals [(''File_10_CCG.xlsx'', [summary_sheet_eav])]) \<and>
   length [summary_sheet_eav] \<noteq> 2 \<and>
   unpack2 [summary_sheet_eav] = Inl ValueError \<and>
   write_data [(''File_10_CCG.xlsx'', [summary_sheet_eav])] [] = Inl ValueError"
proof -
  have a: "[summary_sheet_eav] \<in> set (vals [(''File_10_CCG.xlsx'', [summary_sheet_eav])])"
    by (simp add: vals_def)
  have b: "length [summary_sheet_eav] \<noteq> 2" by simp
  have c: "write_data [(''File_10_CCG.xlsx'', [summary_sheet_eav])] [] \<noteq> Inl AttributeError"
    by (simp add: write_data_def vals_def unpack2_def)
  from write_data_unpack_fails [OF a b, of "[]"] a b c show ?thesis by blast
qed

text \<open>
  C6.  The writer at the collection the pipeline produces for one workbook with one sheet:
  the sheet list does not unpack and no file is written; with two sheets the second sheet
  is taken for the sheet list, its first column label for a sheet, and again no file is
  written.
\<close>

theorem write_data_writes_nothing:
  "write_data [(''File_10_CCG.xlsx'', [summary_sheet_eav])] [] = Inl ValueError \<and>
   write_data [(''File_10_CCG.xlsx'', [summary_sheet_eav, summary_sheet_eav])] []
     = Inl AttributeError"
  by (simp add: write_data_def vals_def unpack2_def labels_def summary_sheet_eav_def)

section \<open>Properties of the IMD loader\<close>

lemma delete_guarded: "(if k \<in> set (keys d) then AList.delete k d else d) = AList.delete k d"
  by (simp add: keys_def)

lemma read_sheets_filter:
  "read_sheets wb =
     map snd (filter (\<lambda>p. fst p \<noteq> ''Notes'' \<and> fst p \<noteq> ''Terms & Conditions'') wb)"
proof -
  have "read_sheets wb = vals (AList.delete ''Terms & Conditions'' (AList.delete ''Notes'' wb))"
    by (simp add: read_sheets_def delete_guarded)
  also have "\<dots> = map snd (filter (\<lambda>p. fst p \<noteq> ''Notes'' \<and> fst p \<noteq> ''Terms & Conditions'') wb)"
    by (induction wb) (auto simp: vals_def)
  finally show ?thesis .
qed

lemma read_sheets_absent:
  "''Notes'' \<notin> set (keys wb) \<Longrightarrow> ''Terms & Conditions'' \<notin> set (keys wb) \<Longrightarrow>
     read_sheets wb = vals wb"
  by (simp add: read_sheets_def)

lemma read_loop_other:
  "read_loop listing acc = Inr c \<Longrightarrow> file \<notin> fst ` set listing \<Longrightarrow> map_of c file = map_of acc file"
  by (induction listing acc rule: read_loop.induct)
     (auto simp: AList.update_conv' split: if_splits option.splits)

lemma read_loop_entry:
  "read_loop listing acc = Inr c \<Longrightarrow> distinct (map fst listing) \<Longrightarrow>
   (file, Some wb) \<in> set listing \<Longrightarrow> endswith file ''.xlsx'' \<Longrightarrow>
     map_of c file = Some (read_sheets wb)"
proof (induction listing acc rule: read_loop.induct)
  case (1 acc)
  then show ?case by simp
next
  case (2 f content rest acc)
  show ?case
  proof (cases "f = file")
    case True
    with "2.prems" have cw: "content = Some wb" and nin: "file \<notin> fst ` set rest"
      by (auto simp: rev_image_eqI)
    with "2.prems"(1,4) True
    have "read_loop rest (AList.update file (read_sheets wb) acc) = Inr c" by simp
    from read_loop_other [OF this nin] show ?thesis by (simp add: AList.update_conv')
  next
    case False
    with "2.prems" have m: "(file, Some wb) \<in> set rest" and d: "distinct (map fst rest)"
      by auto
    show ?thesis
    proof (cases "endswith f ''.xlsx''")
      case True
      with "2.prems"(1) obtain df where c: "content = Some df"
        and r: "read_loop rest (AList.update f (read_sheets df) acc) = Inr c"
        by (auto split: option.splits)
      from "2.IH"(1) [OF True c r d m "2.prems"(4)] show ?thesis .
    next
      case False
      with "2.prems"(1) have r: "read_loop rest acc = Inr c" by simp
      from "2.IH"(2) [OF False r d m "2.prems"(4)] show ?thesis .
    qed
  qed
qed

lemma read_loop_succeeds:
  "\<forall>p \<in> set listing. endswith (fst p) ''.xlsx'' \<longrightarrow> snd p \<noteq> None \<Longrightarrow>
     \<exists>c. read_loop listing acc = Inr c"
  by (induction listing acc rule: read_loop.induct) (auto split: option.splits)

text \<open>
  C8.  When every spreadsheet file of the directory can be read, the loader succeeds, and
  the sheet list of a workbook is its tables in order without those of the sheets named
  "Notes" and "Terms & Conditions"; a workbook with neither sheet is loaded whole.
\<close>

theorem read_imd_data_excludes_notes:
  assumes "distinct (map fst listing)"
    and "\<forall>p \<in> set listing. endswith (fst p) ''.xlsx'' \<longrightarrow> snd p \<noteq> None"
    and "(file, Some wb) \<in> set listing" and "endswith file ''.xlsx''"
  shows "\<exists>c. read_imd_data listing = Inr c \<and>
           map_of c file =
             Some (map snd (filter (\<lambda>p. fst p \<noteq> ''Notes'' \<and> fst p \<noteq> ''Terms & Conditions'') wb)) \<and>
           (''Notes'' \<notin> set (keys wb) \<and> ''Terms & Conditions'' \<notin> set (keys wb)
              \<longrightarrow> map_of c file = Some (vals wb))"
proof -
  from read_loop_succeeds [OF assms(2)] obtain c where c: "read_loop listing [] = Inr c" by blast
  from read_loop_entry [OF c assms(1,3,4)] have m: "map_of c file = Some (read_sheets wb)" .
  show ?thesis using c m
    by (auto simp: read_imd_data_def read_sheets_filter [symmetric] read_sheets_absent)
qed

theorem read_imd_data_excludes_notes_witness:
  "distinct (map fst imd_listing) \<and>
   (''File_10_CCG.xlsx'', Some [(''IMD'', summary_sheet), (''Notes'', no_frame)]) \<in> set imd_listing \<and>
   endswith ''File_10_CCG.xlsx'' ''.xlsx'' \<and>
   read_imd_data imd_listing = Inr [(''File_10_CCG.xlsx'', [summary_sheet])]"
proof -
  have a: "distinct (map fst imd_listing)" by (simp add: imd_listing_def)
  have b: "\<forall>p \<in> set imd_listing. endswith (fst p) ''.xlsx'' \<longrightarrow> snd p \<noteq> None"
    by (simp add: imd_listing_def endswith_def)
  have c: "(''File_10_CCG.xlsx'', Some [(''IMD'', summary_sheet), (''Notes'', no_frame)]) \<in> set imd_listing"
    by (simp add: imd_listing_def)
  have d: "endswith ''File_10_CCG.xlsx'' ''.xlsx''" by (simp add: endswith_def)
  from read_imd_data_excludes_notes [OF a b c d]
  obtain r where r: "read_imd_data imd_listing = Inr r"
    and m: "map_of r ''File_10_CCG.xlsx'' = Some [summary_sheet]" by auto
  have "read_imd_data imd_listing = Inr [(''File_10_CCG.xlsx'', [summary_sheet])]"
    by (simp add: read_imd_data_def imd_listing_def endswith_def read_sheets_def keys_def vals_def)
  with a c d r show ?thesis by blast
qed

subsection \<open>The loaded sheets as objects\<close>

text \<open>
  Placed in a store, the sheets of a loaded collection are pairwise different objects at
  consecutive references, each holding the table that was read.
\<close>

lemma alloc_refs:
  "alloc fs (st, n) = ((st', n'), rs) \<Longrightarrow>
     n' = n + length fs \<and> rs = [n..<n + length fs] \<and> map st' rs = fs \<and> (\<forall>r < n. st' r = st r)"
proof (induction fs arbitrary: st n st' n' rs)
  case Nil
  then show ?case by simp
next
  case (Cons f fs)
  from Cons.prems obtain rs0 where
    a: "alloc fs (st(n := f), Suc n) = ((st', n'), rs0)" and rs: "rs = n # rs0"
    by (auto split: prod.splits)
  from Cons.IH [OF a] have
    1: "n' = Suc n + length fs" and 2: "rs0 = [Suc n..<Suc n + length fs]" and
    3: "map st' rs0 = fs" and 4: "\<forall>r < Suc n. st' r = (st(n := f)) r"
    by blast+
  from 4 have 5: "st' n = f" "\<forall>r < n. st' r = st r" by auto
  have 6: "[n..<n + length (f # fs)] = n # [Suc n..<Suc n + length fs]"
    by (simp add: upt_conv_Cons del: upt_Suc)
  from 1 show ?case unfolding rs 6 using 3 [unfolded 2] 5 2 by (simp del: upt_Suc)
qed

lemma as_objects_refs:
  "as_objects d (st, n) = (st', d') \<Longrightarrow>
     keys d' = keys d \<and> concat (vals d') = [n..<n + length (concat (vals d))] \<and>
     map (map st') (vals d') = vals d \<and> (\<forall>r < n. st' r = st r)"
proof (induction d arbitrary: st n st' d')
  case Nil
  then show ?case by (simp add: keys_def vals_def)
next
  case (Cons a d)
  obtain k fs where a: "a = (k, fs)" by (cases a)
  from Cons.prems a obtain st1 n1 rs d1 where
    al: "alloc fs (st, n) = ((st1, n1), rs)" and
    rec: "as_objects d (st1, n1) = (st', d1)" and d': "d' = (k, rs) # d1"
    by (auto split: prod.splits)
  from alloc_refs [OF al] have
    n1: "n1 = n + length fs" and rs: "rs = [n..<n + length fs]" and
    fr: "map st1 rs = fs" and old: "\<forall>r < n. st1 r = st r" by blast+
  from Cons.IH [OF rec] have
    1: "keys d1 = keys d" and 2: "concat (vals d1) = [n1..<n1 + length (concat (vals d))]" and
    3: "map (map st') (vals d1) = vals d" and 4: "\<forall>r < n1. st' r = st1 r" by blast+
  have "map st' rs = map st1 rs" using 4 rs n1 by simp
  with fr have 5: "map st' rs = fs" by simp
  have 6: "[n..<n + length fs] @ [n + length fs..<n + length fs + m]
             = [n..<n + (length fs + m)]" for m
    by (metis add.assoc le_add1 upt_add_eq_append)
  have 7: "\<forall>r < n. st' r = st r" using 4 old n1 by simp
  have 8: "concat (vals d') = [n..<n + length (concat (vals (a # d)))]"
    unfolding d' a using 2 by (simp add: vals_def rs n1 6 del: upt_Suc)
  have 9: "map (map st') (vals d') = vals (a # d)"
    unfolding d' a using 3 5 by (simp add: vals_def)
  have 10: "keys d' = keys (a # d)"
    unfolding d' a using 1 by (simp add: keys_def)
  from 7 8 9 10 show ?case by blast
qed

lemma as_objects_distinct:
  "as_objects d (st, n) = (st', d') \<Longrightarrow> distinct (concat (vals d'))"
  using as_objects_refs [of d st n st' d'] by simp

section \<open>What the column stripper drops\<close>

lemma filter_middle:
  "distinct (map fst (A @ B @ C)) \<Longrightarrow>
     filter (\<lambda>c. fst c \<notin> fst ` set B) (A @ B @ C) = A @ C"
proof -
  assume d: "distinct (map fst (A @ B @ C))"
  have a: "filter (\<lambda>c. fst c \<notin> fst ` set B) A = A"
    using d by (auto simp: filter_id_conv)
  have b: "filter (\<lambda>c. fst c \<notin> fst ` set B) B = []"
    by (auto simp: filter_empty_conv)
  have c: "filter (\<lambda>c. fst c \<notin> fst ` set B) C = C"
    using d by (auto simp: filter_id_conv)
  show ?thesis by (simp add: a b c)
qed

lemma filter_slice:
  assumes "distinct (map fst cs)"
  shows "filter (\<lambda>c. fst c \<notin> set (take k (drop a (map fst cs)))) cs = take a cs @ drop (a + k) cs"
proof -
  have s: "cs = take a cs @ take k (drop a cs) @ drop (a + k) cs"
    by (metis add.commute append_take_drop_id drop_drop)
  have l: "set (take k (drop a (map fst cs))) = fst ` set (take k (drop a cs))"
    by (simp add: take_map drop_map)
  have "filter (\<lambda>c. fst c \<notin> fst ` set (take k (drop a cs)))
          (take a cs @ take k (drop a cs) @ drop (a + k) cs) = take a cs @ drop (a + k) cs"
    by (rule filter_middle) (use assms s in simp)
  with s l show ?thesis by simp
qed

lemma drop_summary_positions:
  assumes "distinct (labels f)" and "2 \<le> length (cols f)"
  shows "drop_summary f = Inr (drop_positions 1 2 f)"
proof -
  from assms(2) obtain c0 c1 rest where c: "cols f = c0 # c1 # rest"
    by (cases "cols f"; cases "tl (cols f)") auto
  have "fst c1 \<notin> fst ` set rest"
    using assms(1) by (simp add: labels_def c)
  then have "\<forall>x \<in> set rest. fst x \<noteq> fst c1"
    by (metis imageI)
  then have "filter (\<lambda>c. fst c \<noteq> fst c1) rest = rest"
    by (simp add: filter_id_conv)
  moreover have "fst c0 \<noteq> fst c1"
    using assms(1) by (auto simp: labels_def c)
  ultimately show ?thesis
    by (simp add: drop_summary_def columns_at_def drop_columns_def drop_positions_def
          labels_def c)
qed

lemma drop_lsoa_positions:
  assumes "distinct (labels f)"
  shows "drop_lsoa f = Inr (drop_positions 1 4 f)"
proof -
  have "filter (\<lambda>c. fst c \<notin> set (take 3 (drop 1 (map fst (cols f))))) (cols f)
          = take 1 (cols f) @ drop (1 + 3) (cols f)"
    by (rule filter_slice) (use assms(1) in \<open>simp add: labels_def\<close>)
  moreover have "set (take 3 (drop 1 (map fst (cols f)))) \<subseteq> set (map fst (cols f))"
    by (meson set_take_subset set_drop_subset subset_trans)
  ultimately show ?thesis
    by (simp add: drop_lsoa_def columns_slice_def drop_columns_def drop_positions_def labels_def)
qed

lemma drop_loop_result:
  "distinct rs \<Longrightarrow> \<forall>r \<in> set rs. g (st r) = Inr (h (st r)) \<Longrightarrow>
     drop_loop g rs (st, u) = Inr (\<lambda>r. if r \<in> set rs then h (st r) else st r, u @ rs)"
proof (induction rs arbitrary: st u)
  case Nil
  then show ?case by simp
next
  case (Cons a rs)
  let ?st1 = "st(a := h (st a))"
  have "drop_loop g rs (?st1, u @ [a])
          = Inr (\<lambda>r. if r \<in> set rs then h (?st1 r) else ?st1 r, (u @ [a]) @ rs)"
    by (rule Cons.IH) (use Cons.prems in auto)
  moreover have "(\<lambda>r. if r \<in> set rs then h (?st1 r) else ?st1 r)
                   = (\<lambda>r. if r \<in> set (a # rs) then h (st r) else st r)"
    using Cons.prems(1) by (auto simp: fun_eq_iff)
  ultimately show ?case using Cons.prems(2) by simp
qed

lemma remove_loop_result:
  assumes "distinct (keys d)" and "set (keys d) \<inter> set (keys out) = {}"
    and "distinct (concat (vals d))"
    and "\<forall>k \<in> set (keys d). (k \<in> set s \<longleftrightarrow> k ! 6 \<noteq> CHR ''_'') \<and> (k \<in> set l \<longleftrightarrow> k ! 6 = CHR ''_'')"
    and "\<forall>p \<in> set d. \<forall>r \<in> set (snd p).
           distinct (labels (st r)) \<and> (fst p ! 6 \<noteq> CHR ''_'' \<longrightarrow> 2 \<le> length (cols (st r)))"
  shows "\<exists>st'. remove_loop s l d (st, out) = Inr (st', out @ d) \<and>
           (\<forall>p \<in> set d. \<forall>r \<in> set (snd p). st' r = strip_of (fst p) (st r)) \<and>
           (\<forall>r. r \<notin> set (concat (vals d)) \<longrightarrow> st' r = st r)"
  using assms
proof (induction d arbitrary: st out)
  case Nil
  then show ?case by simp
next
  case (Cons a d)
  obtain k rs where a: "a = (k, rs)" by (cases a)
  let ?st2 = "\<lambda>r. if r \<in> set rs then strip_of k (st r) else st r"
  have drs: "distinct rs" and disj: "set rs \<inter> set (concat (vals d)) = {}"
    using Cons.prems(3) a by (auto simp: vals_def)
  have fresh: "k \<notin> set (keys out)" using Cons.prems(2) a by (auto simp: keys_def)
  have step: "(case (if k \<in> set s then drop_loop drop_summary rs (st, []) else Inr (st, [])) of
                 Inl e \<Rightarrow> Inl e
               | Inr (st1, l1) \<Rightarrow>
                   (case (if k \<in> set l then drop_loop drop_lsoa rs (st1, l1) else Inr (st1, l1)) of
                      Inl e \<Rightarrow> Inl e
                    | Inr (st2, l2) \<Rightarrow> remove_loop s l d (st2, AList.update k l2 out)))
              = remove_loop s l d (?st2, AList.update k rs out)"
  proof (cases "k ! 6 \<noteq> CHR ''_''")
    case True
    with Cons.prems(4) a have ks: "k \<in> set s" and kl: "k \<notin> set l" by (auto simp: keys_def)
    have dl: "\<forall>r \<in> set rs. drop_summary (st r) = Inr (drop_positions 1 2 (st r))"
      using Cons.prems(5) a True by (simp add: drop_summary_positions)
    have "strip_of k = drop_positions 1 2"
      using True by (simp add: strip_of_def fun_eq_iff)
    then show ?thesis
      using drop_loop_result [OF drs dl, of "[]"] ks kl by (simp cong: if_cong)
  next
    case False
    with Cons.prems(4) a have ks: "k \<notin> set s" and kl: "k \<in> set l" by (auto simp: keys_def)
    have dl: "\<forall>r \<in> set rs. drop_lsoa (st r) = Inr (drop_positions 1 4 (st r))"
      using Cons.prems(5) a by (simp add: drop_lsoa_positions)
    have "strip_of k = drop_positions 1 4"
      using False by (simp add: strip_of_def fun_eq_iff)
    then show ?thesis
      using drop_loop_result [OF drs dl, of "[]"] ks kl by (simp cong: if_cong)
  qed
  have same: "\<forall>p \<in> set d. \<forall>r \<in> set (snd p). ?st2 r = st r"
    using disj by (auto simp: vals_def)
  have "\<exists>st'. remove_loop s l d (?st2, AList.update k rs out) = Inr (st', AList.update k rs out @ d) \<and>
           (\<forall>p \<in> set d. \<forall>r \<in> set (snd p). st' r = strip_of (fst p) (?st2 r)) \<and>
           (\<forall>r. r \<notin> set (concat (vals d)) \<longrightarrow> st' r = ?st2 r)"
  proof (rule Cons.IH)
    show "distinct (keys d)" using Cons.prems(1) by (simp add: keys_def)
    show "set (keys d) \<inter> set (keys (AList.update k rs out)) = {}"
      using Cons.prems(1,2) a by (auto simp: keys_def AList.update_keys)
    show "distinct (concat (vals d))" using Cons.prems(3) by (simp add: vals_def)
    show "\<forall>k \<in> set (keys d). (k \<in> set s \<longleftrightarrow> k ! 6 \<noteq> CHR ''_'') \<and> (k \<in> set l \<longleftrightarrow> k ! 6 = CHR ''_'')"
      using Cons.prems(4) by (simp add: keys_def)
    show "\<forall>p \<in> set d. \<forall>r \<in> set (snd p).
           distinct (labels (?st2 r)) \<and> (fst p ! 6 \<noteq> CHR ''_'' \<longrightarrow> 2 \<le> length (cols (?st2 r)))"
      using Cons.prems(5) same by simp
  qed
  then obtain st' where
    r: "remove_loop s l d (?st2, AList.update k rs out) = Inr (st', AList.update k rs out @ d)" and
    p: "\<forall>p \<in> set d. \<forall>r \<in> set (snd p). st' r = strip_of (fst p) (?st2 r)" and
    q: "\<forall>r. r \<notin> set (concat (vals d)) \<longrightarrow> st' r = ?st2 r"
    by blast
  have 1: "remove_loop s l (a # d) (st, out) = Inr (st', out @ a # d)"
    using step r fresh a by (simp add: update_fresh)
  have 2: "\<forall>p \<in> set (a # d). \<forall>r \<in> set (snd p). st' r = strip_of (fst p) (st r)"
  proof (intro ballI)
    fix p r
    assume p': "p \<in> set (a # d)" and r': "r \<in> set (snd p)"
    show "st' r = strip_of (fst p) (st r)"
    proof (cases "p = a")
      case True
      with r' a have rr: "r \<in> set rs" by simp
      with disj have "r \<notin> set (concat (vals d))" by blast
      with q rr True a show ?thesis by simp
    next
      case False
      with p' have pd: "p \<in> set d" by simp
      from p pd r' have "st' r = strip_of (fst p) (?st2 r)" by blast
      moreover from same pd r' have "?st2 r = st r" by blast
      ultimately show ?thesis by simp
    qed
  qed
  have 3: "\<forall>r. r \<notin> set (concat (vals (a # d))) \<longrightarrow> st' r = st r"
    using q a by (auto simp: vals_def)
  from 1 2 3 show ?case by blast
qed

lemma remove_columns_result:
  assumes "distinct (keys d)" and "\<forall>k \<in> set (keys d). 7 \<le> length k"
    and "distinct (concat (vals d))"
    and "\<forall>p \<in> set d. \<forall>r \<in> set (snd p).
           distinct (labels (st r)) \<and> (fst p ! 6 \<noteq> CHR ''_'' \<longrightarrow> 2 \<le> length (cols (st r)))"
  shows "\<exists>st'. remove_columns st d = Inr (st', d) \<and>
           (\<forall>p \<in> set d. \<forall>r \<in> set (snd p). st' r = strip_of (fst p) (st r))"
proof -
  from files_check_Inr [OF assms(2)] obtain s where
    s: "files_check (\<lambda>c. c \<noteq> CHR ''_'') (keys d) = Inr s" by blast
  from files_check_Inr [OF assms(2)] obtain l where
    l: "files_check (\<lambda>c. c = CHR ''_'') (keys d) = Inr l" by blast
  have cl: "\<forall>k \<in> set (keys d). (k \<in> set s \<longleftrightarrow> k ! 6 \<noteq> CHR ''_'') \<and> (k \<in> set l \<longleftrightarrow> k ! 6 = CHR ''_'')"
    using files_check_set [OF s] files_check_set [OF l] by auto
  have "set (keys d) \<inter> set (keys ([] :: (string, ref list) dict)) = {}" by (simp add: keys_def)
  from remove_loop_result [OF assms(1) this assms(3) cl assms(4)]
  show ?thesis using s l by (auto simp: remove_columns_def)
qed

text \<open>
  C1 (as amended).  Let every file name have at least seven characters, let the sheets of
  the collection be pairwise different objects with pairwise different column labels, and
  let every sheet of a file whose character at index 6 is not an underscore have at least
  two columns.  Then \<open>remove_columns\<close> returns the collection itself (same keys, same
  sheets), and each sheet has lost exactly its column at position 1 when the character is
  not an underscore, and exactly those of its columns at positions 1, 2 and 3 that it has
  when it is.
\<close>

theorem remove_columns_strips:
  assumes "distinct (keys d)" and "\<forall>k \<in> set (keys d). 7 \<le> length k"
    and "distinct (concat (vals d))"
    and "\<forall>p \<in> set d. \<forall>r \<in> set (snd p).
           distinct (labels (st r)) \<and> (fst p ! 6 \<noteq> CHR ''_'' \<longrightarrow> 2 \<le> length (cols (st r)))"
  shows "\<exists>st'. remove_columns st d = Inr (st', d) \<and>
           (\<forall>p \<in> set d. \<forall>r \<in> set (snd p).
              st' r = (if fst p ! 6 \<noteq> CHR ''_'' then drop_positions 1 2 (st r)
                       else drop_positions 1 4 (st r)))"
  using remove_columns_result [OF assms] by (simp add: strip_of_def)

text \<open>
  C1 as stated fails: a sheet with a single column in a file classified as
  summary-resolution has no column at position 1, and the call raises IndexError
  instead of returning a collection.
\<close>

theorem remove_columns_one_column_sheet:
  "remove_columns ((\<lambda>_. no_frame)(0 := one_column_sheet)) [(''File_10_CCG.xlsx'', [0])]
     = Inl IndexError"
  by (simp add: remove_columns_def keys_def str_index_def drop_summary_def columns_at_def
        one_column_sheet_def)


theorem remove_columns_strips_witness:
  "\<exists>st'. remove_columns two_files_store two_files = Inr (st', two_files) \<and>
      st' 0 = drop_positions 1 2 summary_sheet \<and> st' 1 = drop_positions 1 4 lsoa_sheet \<and>
      drop_positions 1 2 summary_sheet = summary_sheet_stripped \<and>
      drop_positions 1 4 lsoa_sheet = lsoa_sheet_stripped"
proof -
  have 1: "distinct (keys two_files)" by (simp add: two_files_def keys_def)
  have 2: "\<forall>k \<in> set (keys two_files). 7 \<le> length k" by (simp add: two_files_def keys_def)
  have 3: "distinct (concat (vals two_files))" by (simp add: two_files_def vals_def)
  have 4: "\<forall>p \<in> set two_files. \<forall>r \<in> set (snd p).
             distinct (labels (two_files_store r)) \<and>
             (fst p ! 6 \<noteq> CHR ''_'' \<longrightarrow> 2 \<le> length (cols (two_files_store r)))"
    by (simp add: two_files_def two_files_store_def labels_def summary_sheet_def lsoa_sheet_def)
  have 5: "drop_positions 1 2 summary_sheet = summary_sheet_stripped"
    by (simp add: drop_positions_def summary_sheet_def summary_sheet_stripped_def)
  have 6: "drop_positions 1 4 lsoa_sheet = lsoa_sheet_stripped"
    by (simp add: drop_positions_def lsoa_sheet_def lsoa_sheet_stripped_def)
  from remove_columns_strips [OF 1 2 3 4] obtain st' where
    a: "remove_columns two_files_store two_files = Inr (st', two_files)" and
    b: "\<forall>p \<in> set two_files. \<forall>r \<in> set (snd p).
          st' r = (if fst p ! 6 \<noteq> CHR ''_'' then drop_positions 1 2 (two_files_store r)
                   else drop_positions 1 4 (two_files_store r))"
    by blast
  from b have "st' 0 = drop_positions 1 2 summary_sheet" "st' 1 = drop_positions 1 4 lsoa_sheet"
    by (simp_all add: two_files_def two_files_store_def)
  with a 5 6 show ?thesis by blast
qed

section \<open>Properties of the EAV reshaper\<close>






















section \<open>The end-to-end scenario\<close>

text \<open>
  C3 (as amended).  The character at index 6 of "E01000001_IMD.xlsx" is a zero, so the
  workbook is classified summary-resolution.  For two sheets that are different objects
  with the columns LSOA code, LSOA name, Score and any rows, the column stripper drops
  LSOA name only, and the EAV reshaper then takes LSOA code and Score as identity
  columns and has nothing left to unpivot: each sheet becomes a table without rows whose
  columns are LSOA code, Score, attribute and value.
\<close>

theorem scenario_yields_no_rows:
  assumes "r1 \<noteq> r2"
    and "st r1 = scenario_sheet N1 codes1 names1 scores1"
    and "st r2 = scenario_sheet N2 codes2 names2 scores2"
  shows "(\<exists>st'. remove_columns st [(''E01000001_IMD.xlsx'', [r1, r2])]
                  = Inr (st', [(''E01000001_IMD.xlsx'', [r1, r2])]) \<and>
                labels (st' r1) = [''LSOA code'', ''Score''] \<and>
                labels (st' r2) = [''LSOA code'', ''Score'']) \<and>
         strip_then_reshape st [(''E01000001_IMD.xlsx'', [r1, r2])]
           = Inr [(''E01000001_IMD.xlsx'', [scenario_eav, scenario_eav])]"
proof -
  have a: "remove_columns st [(''E01000001_IMD.xlsx'', [r1, r2])]
             = Inr (st(r1 := drop_positions 1 2 (st r1), r2 := drop_positions 1 2 (st r2)),
                    [(''E01000001_IMD.xlsx'', [r1, r2])])"
    using assms
    by (simp add: remove_columns_def keys_def str_index_def drop_summary_def columns_at_def
          drop_columns_def labels_def scenario_sheet_def drop_positions_def)
  have b: "strip_then_reshape st [(''E01000001_IMD.xlsx'', [r1, r2])]
             = Inr [(''E01000001_IMD.xlsx'', [scenario_eav, scenario_eav])]"
    using assms(1) unfolding strip_then_reshape_def a
    by (simp add: assms(2,3) labels_def scenario_sheet_def drop_positions_def
          convert_to_eav_format_def melt_def columns_slice_def
          get_indexer_for_def unique_def iloc_columns_def pop_def
          tile_def DataFrame_def scenario_eav_def upt_rec numeral_2_eq_2)
  have c: "labels ((st(r1 := drop_positions 1 2 (st r1), r2 := drop_positions 1 2 (st r2))) r1)
             = [''LSOA code'', ''Score'']"
    "labels ((st(r1 := drop_positions 1 2 (st r1), r2 := drop_positions 1 2 (st r2))) r2)
             = [''LSOA code'', ''Score'']"
    using assms by (simp_all add: labels_def scenario_sheet_def drop_positions_def)
  from a b c show ?thesis by blast
qed

theorem scenario_yields_no_rows_witness:
  "strip_then_reshape scenario_store [(''E01000001_IMD.xlsx'', [0, 1])]
     = Inr [(''E01000001_IMD.xlsx'', [scenario_eav, scenario_eav])]"
proof -
  have 1: "(0::ref) \<noteq> 1" by simp
  have 2: "scenario_store 0 = scenario_sheet 2 [Str ''E01000001'', Str ''E01000002'']
               [Str ''City of London 001A'', Str ''City of London 001B''] [Num 6, Num 5]"
    by (simp add: scenario_store_def)
  have 3: "scenario_store 1
             = scenario_sheet 1 [Str ''E01000003''] [Str ''City of London 001C''] [Num 19]"
    by (simp add: scenario_store_def)
  from scenario_yields_no_rows [OF 1 2 3] show ?thesis by blast
qed

text \<open>
  C3 as stated fails: the character at index 6 is not an underscore, and the sheet with
  two rows gives no row, where the claim has one row (code, name, "Score", value) for
  each of them.
\<close>

theorem scenario_not_one_row_each:
  "''E01000001_IMD.xlsx'' ! 6 = CHR ''0'' \<and>
   index_len (scenario_store 0) = 2 \<and>
   strip_then_reshape scenario_store [(''E01000001_IMD.xlsx'', [0, 1])]
     = Inr [(''E01000001_IMD.xlsx'', [scenario_eav, scenario_eav])] \<and>
   index_len scenario_eav = 0 \<and>
   labels scenario_eav = [''LSOA code'', ''Score'', ''attribute'', ''value'']"
  by (simp add: strip_then_reshape_def remove_columns_def keys_def str_index_def
        drop_summary_def columns_at_def drop_columns_def labels_def scenario_sheet_def
        convert_to_eav_format_def melt_def columns_slice_def scenario_store_def
        get_indexer_for_def unique_def iloc_columns_def pop_def
        tile_def DataFrame_def scenario_eav_def upt_rec numeral_2_eq_2)

section \<open>Properties of the bridge table builder\<close>

lemma unique_from_set: "set (unique_from seen xs) = set xs - set seen"
  by (induction xs arbitrary: seen) auto

lemma unique_from_is_distinct: "distinct (unique_from seen xs)"
  by (induction xs arbitrary: seen) (auto simp: unique_from_set)

lemma unique_from_positions:
  "unique_from seen xs =
     map ((!) xs) (filter (\<lambda>i. xs ! i \<notin> set seen \<union> set (take i xs)) [0..<length xs])"
proof (induction xs arbitrary: seen)
  case Nil
  then show ?case by simp
next
  case (Cons x xs)
  let ?seen' = "if x \<in> set seen then seen else x # seen"
  have u: "[0..<length (x # xs)] = 0 # map Suc [0..<length xs]"
    by (simp add: upt_conv_Cons map_Suc_upt del: upt_Suc)
  have f: "filter (\<lambda>i. (x # xs) ! i \<notin> set seen \<union> set (take i (x # xs))) (map Suc [0..<length xs])
             = map Suc (filter (\<lambda>i. xs ! i \<notin> set ?seen' \<union> set (take i xs)) [0..<length xs])"
    unfolding filter_map comp_def
    by (intro arg_cong [where f = "map Suc"] filter_cong) auto
  have t: "map ((!) (x # xs)) (map Suc js) = map ((!) xs) js" for js
    by simp
  have "unique_from seen (x # xs)
          = (if x \<in> set seen then [] else [x]) @ unique_from ?seen' xs"
    by simp
  also have "unique_from ?seen' xs
          = map ((!) xs) (filter (\<lambda>i. xs ! i \<notin> set ?seen' \<union> set (take i xs)) [0..<length xs])"
    by (rule Cons.IH)
  finally show ?case
    unfolding u filter.simps list.map f t by simp
qed

lemma unique_first_occurrences: "unique xs = first_occurrences xs"
  by (simp add: unique_def first_occurrences_def unique_from_positions)

lemma unique_props:
  "distinct (unique xs)" "set (unique xs) = set xs" "length (unique xs) = card (set xs)"
proof -
  show d: "distinct (unique xs)" by (simp add: unique_def unique_from_is_distinct)
  show s: "set (unique xs) = set xs" by (simp add: unique_def unique_from_set)
  from distinct_card [OF d] s show "length (unique xs) = card (set xs)" by simp
qed

lemma filter_single: "filter P xs = [c] \<Longrightarrow> x \<in> set xs \<Longrightarrow> P x \<Longrightarrow> x = c"
proof -
  assume f: "filter P xs = [c]" and x: "x \<in> set xs" "P x"
  from x have "x \<in> set (filter P xs)" by simp
  with f show "x = c" by simp
qed

lemma getitem_unique_Inr:
  "getitem_unique df l = Inr u \<Longrightarrow>
     \<exists>c. filter (\<lambda>c. fst c = l) (cols df) = [c] \<and> u = unique (snd c)"
  by (auto simp: getitem_unique_def split: list.splits)

lemma columns_take_pair:
  "columns_take m [a, b] = Inr ls \<Longrightarrow>
     a < length (cols m) \<and> b < length (cols m) \<and> ls = [labels m ! a, labels m ! b]"
  by (auto simp: columns_at_def split: if_splits sum.splits)

lemma bridge_pair:
  assumes ct: "columns_take m [a, b] = Inr ls"
    and gc: "getitem_columns m ls = Inr df"
    and br: "bridge_of df = Inr t"
  shows "a < length (cols m) \<and> b < length (cols m) \<and>
         t = \<lparr>index_len = length (unique (snd (cols m ! a))),
              cols = [(''code'', unique (snd (cols m ! a))), (''name'', unique (snd (cols m ! b)))]\<rparr> \<and>
         length (unique (snd (cols m ! a))) = length (unique (snd (cols m ! b)))"
proof -
  define n where "n = length (cols m)"
  define la lb where "la = labels m ! a" and "lb = labels m ! b"
  define Pa Pb where "Pa = filter (\<lambda>i. labels m ! i = la) [0..<n]"
    and "Pb = filter (\<lambda>i. labels m ! i = lb) [0..<n]"
  define g where "g = (!) (cols m)"
  from columns_take_pair [OF ct] have a: "a < n" and b: "b < n" and ls: "ls = [la, lb]"
    by (auto simp: n_def la_def lb_def)
  have lab: "\<And>i. i < n \<Longrightarrow> fst (g i) = labels m ! i" by (simp add: labels_def n_def g_def)
  from gc ls have df: "cols df = map g Pa @ map g Pb"
    by (auto simp: getitem_columns_def iloc_columns_def get_indexer_for_def labels_def
          Pa_def Pb_def n_def g_def split: if_splits)
  have aPa: "a \<in> set Pa" and bPb: "b \<in> set Pb"
    using a b by (auto simp: Pa_def Pb_def la_def lb_def)
  have inPa: "\<And>i. i \<in> set Pa \<Longrightarrow> i < n \<and> fst (g i) = la"
    and inPb: "\<And>i. i \<in> set Pb \<Longrightarrow> i < n \<and> fst (g i) = lb"
    by (auto simp: Pa_def Pb_def lab)
  have allPa: "filter (\<lambda>c. fst c = la) (map g Pa) = map g Pa"
    using inPa by (auto simp: filter_id_conv)
  from aPa obtain p Pa' where Pa: "Pa = p # Pa'" by (cases Pa) auto
  have c0: "columns_at df 0 = Inr la"
    using inPa [of p] by (simp add: columns_at_def labels_def df Pa)
  from br c0 obtain code where code: "getitem_unique df la = Inr code"
    by (auto simp: bridge_of_def split: sum.splits)
  from getitem_unique_Inr [OF code] obtain c where
    fc: "filter (\<lambda>c. fst c = la) (cols df) = [c]" and cu: "code = unique (snd c)" by blast
  have "g a \<in> set (cols df)" using aPa by (simp add: df)
  from filter_single [OF fc this] inPa [OF aPa] have ca: "c = g a" by simp
  from fc have "length (map g Pa) + length (filter (\<lambda>c. fst c = la) (map g Pb)) = 1"
    unfolding df filter_append allPa
    by (metis length_append length_Cons list.size(3) One_nat_def)
  with Pa have Pa1: "Pa = [p]" by auto
  from bPb obtain q Pb' where Pb: "Pb = q # Pb'" by (cases Pb) auto
  have c1: "columns_at df 1 = Inr lb"
    using inPb [of q] by (simp add: columns_at_def labels_def df Pa1 Pb)
  from br c0 code c1 obtain name where name: "getitem_unique df lb = Inr name"
    by (auto simp: bridge_of_def split: sum.splits)
  from getitem_unique_Inr [OF name] obtain c' where
    fc': "filter (\<lambda>c. fst c = lb) (cols df) = [c']" and cu': "name = unique (snd c')" by blast
  have "g b \<in> set (cols df)" using bPb by (simp add: df)
  from filter_single [OF fc' this] inPb [OF bPb] have cb: "c' = g b" by simp
  from br c0 code c1 name
  have "DataFrame [(''code'', code), (''name'', name)] [''code'', ''name''] = Inr t"
    by (simp add: bridge_of_def)
  then have "length code = length name \<and>
             t = \<lparr>index_len = length code, cols = [(''code'', code), (''name'', name)]\<rparr>"
    by (auto simp: DataFrame_def Let_def split: if_splits)
  with a b cu cu' ca cb show ?thesis by (simp add: n_def g_def)
qed

lemma split_loop_all2:
  "split_loop m ps acc = Inr dfs \<Longrightarrow>
     \<exists>ds. dfs = acc @ ds \<and>
       list_all2 (\<lambda>p df. \<exists>ls. columns_take m p = Inr ls \<and> getitem_columns m ls = Inr df) ps ds"
proof (induction ps arbitrary: acc)
  case Nil
  then show ?case by simp
next
  case (Cons p ps)
  from Cons.prems obtain ls df where
    1: "columns_take m p = Inr ls" "getitem_columns m ls = Inr df" and
    2: "split_loop m ps (acc @ [df]) = Inr dfs"
    by (auto split: sum.splits)
  from Cons.IH [OF 2] obtain ds where "dfs = (acc @ [df]) @ ds"
    "list_all2 (\<lambda>p df. \<exists>ls. columns_take m p = Inr ls \<and> getitem_columns m ls = Inr df) ps ds"
    by blast
  with 1 show ?case by (intro exI [of _ "df # ds"]) auto
qed

lemma dedup_loop_all2:
  "dedup_loop dfs acc = Inr ts \<Longrightarrow>
     \<exists>us. ts = acc @ us \<and> list_all2 (\<lambda>df t. bridge_of df = Inr t) dfs us"
proof (induction dfs arbitrary: acc)
  case Nil
  then show ?case by simp
next
  case (Cons df dfs)
  from Cons.prems obtain t where
    1: "bridge_of df = Inr t" and 2: "dedup_loop dfs (acc @ [t]) = Inr ts"
    by (auto split: sum.splits)
  from Cons.IH [OF 2] obtain us where "ts = (acc @ [t]) @ us"
    "list_all2 (\<lambda>df t. bridge_of df = Inr t) dfs us" by blast
  with 1 show ?case by (intro exI [of _ "t # us"]) auto
qed

lemma create_bridge_tables_nth:
  assumes "create_bridge_tables m = Inr ts" and "i < length ts"
  shows "length ts = length bridge_table_index_dictionary \<and>
         (\<exists>ls df. columns_take m (snd (bridge_table_index_dictionary ! i)) = Inr ls \<and>
                  getitem_columns m ls = Inr df \<and> bridge_of df = Inr (ts ! i))"
proof -
  let ?ps = "vals bridge_table_index_dictionary"
  from assms(1) obtain dfs where
    s: "split_loop m ?ps [] = Inr dfs" and d: "dedup_loop dfs [] = Inr ts"
    by (auto simp: create_bridge_tables_def split: sum.splits)
  from split_loop_all2 [OF s]
  have 1: "list_all2 (\<lambda>p df. \<exists>ls. columns_take m p = Inr ls \<and> getitem_columns m ls = Inr df) ?ps dfs"
    by simp
  from dedup_loop_all2 [OF d]
  have 2: "list_all2 (\<lambda>df t. bridge_of df = Inr t) dfs ts" by simp
  from 1 2 have len: "length ?ps = length dfs" "length dfs = length ts"
    by (auto dest: list_all2_lengthD)
  with assms(2) have i: "i < length ?ps" "i < length dfs" by simp_all
  from list_all2_nthD [OF 1 i(1)] list_all2_nthD [OF 2 i(2)] len i(1)
  show ?thesis by (auto simp: vals_def)
qed


text \<open>
  C4.  Every table that \<open>create_bridge_tables\<close> returns (there is one for each entry
  of the index dictionary, in its order) has the two columns code and name; they hold
  the values of the two configured columns of the lookup table at their first
  occurrences, in that order, each column on its own; neither has a duplicate, each has
  every value of its source column; and the number of rows is the larger of the two
  numbers of different values.
\<close>

theorem create_bridge_tables_deduplicated:
  assumes "create_bridge_tables lookup_table = Inr tables" and "i < length tables"
  shows "length tables = length bridge_table_index_dictionary \<and>
    (\<exists>a b. snd (bridge_table_index_dictionary ! i) = [a, b] \<and>
       a < length (cols lookup_table) \<and> b < length (cols lookup_table) \<and>
       (let codes = snd (cols lookup_table ! a); names = snd (cols lookup_table ! b);
            t = tables ! i
        in labels t = [''code'', ''name''] \<and>
           snd (cols t ! 0) = first_occurrences codes \<and>
           snd (cols t ! 1) = first_occurrences names \<and>
           distinct (snd (cols t ! 0)) \<and> distinct (snd (cols t ! 1)) \<and>
           set (snd (cols t ! 0)) = set codes \<and> set (snd (cols t ! 1)) = set names \<and>
           length (snd (cols t ! 0)) = index_len t \<and> length (snd (cols t ! 1)) = index_len t \<and>
           index_len t = max (card (set codes)) (card (set names))))"
proof -
  from create_bridge_tables_nth [OF assms] obtain ls df where
    len: "length tables = length bridge_table_index_dictionary" and
    ct: "columns_take lookup_table (snd (bridge_table_index_dictionary ! i)) = Inr ls" and
    gc: "getitem_columns lookup_table ls = Inr df" and
    br: "bridge_of df = Inr (tables ! i)"
    by blast
  from assms(2) len have "i < 4" by (simp add: bridge_table_index_dictionary_def)
  then consider "i = 0" | "i = 1" | "i = 2" | "i = 3" by linarith
  then obtain a b where ab: "snd (bridge_table_index_dictionary ! i) = [a, b]"
    by cases (simp_all add: bridge_table_index_dictionary_def)
  from bridge_pair [OF ct [unfolded ab] gc br]
  have a: "a < length (cols lookup_table)" and b: "b < length (cols lookup_table)"
    and t: "tables ! i = \<lparr>index_len = length (unique (snd (cols lookup_table ! a))),
              cols = [(''code'', unique (snd (cols lookup_table ! a))),
                      (''name'', unique (snd (cols lookup_table ! b)))]\<rparr>"
    and e: "length (unique (snd (cols lookup_table ! a))) = length (unique (snd (cols lookup_table ! b)))"
    by simp_all
  have "let codes = snd (cols lookup_table ! a); names = snd (cols lookup_table ! b);
            t = tables ! i
        in labels t = [''code'', ''name''] \<and>
           snd (cols t ! 0) = first_occurrences codes \<and>
           snd (cols t ! 1) = first_occurrences names \<and>
           distinct (snd (cols t ! 0)) \<and> distinct (snd (cols t ! 1)) \<and>
           set (snd (cols t ! 0)) = set codes \<and> set (snd (cols t ! 1)) = set names \<and>
           length (snd (cols t ! 0)) = index_len t \<and> length (snd (cols t ! 1)) = index_len t \<and>
           index_len t = max (card (set codes)) (card (set names))"
    unfolding Let_def t using e
    by (simp add: labels_def unique_props unique_first_occurrences [symmetric])
  with len ab a b show ?thesis by blast
qed

theorem create_bridge_tables_deduplicated_witness:
  "create_bridge_tables master_lookup = Inr bridge_tables \<and> (3::nat) < length bridge_tables \<and>
   snd (bridge_table_index_dictionary ! 3) = [14, 16] \<and>
   first_occurrences (snd (cols master_lookup ! 14)) = [Str ''E38000255'', NaN] \<and>
   index_len (bridge_tables ! 3) = 2"
proof -
  have 1: "create_bridge_tables master_lookup = Inr bridge_tables"
    by (simp add: create_bridge_tables_def bridge_table_index_dictionary_def vals_def
          columns_at_def labels_def master_lookup_def getitem_columns_def get_indexer_for_def
          iloc_columns_def bridge_of_def getitem_unique_def unique_def DataFrame_def
          bridge_tables_def upt_rec)
  have 2: "(3::nat) < length bridge_tables" by (simp add: bridge_tables_def)
  have 3: "snd (bridge_table_index_dictionary ! 3) = [14, 16]"
    by (simp add: bridge_table_index_dictionary_def)
  from create_bridge_tables_deduplicated [OF 1 2] 3
  have "snd (cols (bridge_tables ! 3) ! 0) = first_occurrences (snd (cols master_lookup ! 14))"
    by (simp add: Let_def)
  then have 4: "first_occurrences (snd (cols master_lookup ! 14)) = [Str ''E38000255'', NaN]"
    by (simp add: bridge_tables_def)
  have 5: "index_len (bridge_tables ! 3) = 2" by (simp add: bridge_tables_def)
  from 1 2 3 4 5 show ?thesis by blast
qed

section \<open>Properties of the master builder\<close>
















end
